theory Spec2Isabelle
  imports Main "HOL-Library.AList"
begin

section \<open>Python values and state records\<close>

text \<open>
  The example nodes receive and return a \<^verbatim>\<open>dict[str, Any]\<close>. The values that occur are the
  JSON-like ones (None, booleans, integers, strings, lists, string-keyed dictionaries) and,
  since \<^verbatim>\<open>Any\<close> admits them, objects that are not serializable. \<open>VObj n\<close> stands for an
  instance of a plain class without special methods (such as \<^verbatim>\<open>object()\<close>) with identity
  \<open>n\<close>: it is truthy, hashable by identity, and has no \<^verbatim>\<open>append\<close>, \<^verbatim>\<open>lower\<close>, length or
  subscript. Floating-point numbers are left out.

  A dictionary is an association list in insertion order, which is the order a Python
  \<^verbatim>\<open>dict\<close> keeps: \<open>AList.update\<close> overwrites a present key in place and appends a new one.
  Values are trees: two entries of a state never share one mutable list object.
\<close>

datatype pyval =
    VNone
  | VBool bool
  | VInt int
  | VStr string
  | VList "pyval list"
  | VDict "(string \<times> pyval) list"
  | VObj nat

type_synonym state = "(string \<times> pyval) list"

datatype py_error = KeyError | IndexError | TypeError | AttributeError

text \<open>\<^verbatim>\<open>d.get(key, default)\<close>, \<^verbatim>\<open>d[key] = value\<close> and \<^verbatim>\<open>d[key]\<close> on a dictionary.\<close>

definition dict_get :: "state \<Rightarrow> string \<Rightarrow> pyval \<Rightarrow> pyval" where
  "dict_get d k dflt = (case map_of d k of None \<Rightarrow> dflt | Some v \<Rightarrow> v)"

definition dict_set :: "state \<Rightarrow> string \<Rightarrow> pyval \<Rightarrow> state" where
  "dict_set d k v = AList.update k v d"

definition dict_getitem :: "state \<Rightarrow> string \<Rightarrow> py_error + pyval" where
  "dict_getitem d k = (case map_of d k of None \<Rightarrow> Inl KeyError | Some v \<Rightarrow> Inr v)"

definition keys :: "state \<Rightarrow> string list" where
  "keys d = map fst d"

text \<open>Truth value of an object, as \<^verbatim>\<open>not x\<close> and \<^verbatim>\<open>x if c else y\<close> test it.\<close>

fun truthy :: "pyval \<Rightarrow> bool" where
  "truthy VNone = False"
| "truthy (VBool b) = b"
| "truthy (VInt n) = (n \<noteq> 0)"
| "truthy (VStr s) = (s \<noteq> [])"
| "truthy (VList xs) = (xs \<noteq> [])"
| "truthy (VDict kvs) = (kvs \<noteq> [])"
| "truthy (VObj n) = True"

text \<open>
  The built-ins of the Python runtime that the nodes call and whose results depend on more
  than the model holds: \<open>py_format\<close> is \<^verbatim>\<open>format(v, '')\<close> of a value that is not a \<^verbatim>\<open>str\<close>
  (what an f-string writes for it), \<open>py_lower\<close> is \<^verbatim>\<open>str.lower\<close>. Every theorem below holds
  for each choice of them.
\<close>

record runtime =
  py_format :: "pyval \<Rightarrow> string"
  py_lower :: "string \<Rightarrow> string"

text \<open>An f-string field \<^verbatim>\<open>{v}\<close>: a \<^verbatim>\<open>str\<close> is written as it is.\<close>

definition fstring_field :: "runtime \<Rightarrow> pyval \<Rightarrow> string" where
  "fstring_field rt v = (case v of VStr s \<Rightarrow> s | _ \<Rightarrow> py_format rt v)"

text \<open>Decimal digits of a natural number (\<^verbatim>\<open>str(n)\<close> for \<^verbatim>\<open>n >= 0\<close>).\<close>

fun string_of_nat :: "nat \<Rightarrow> string" where
  "string_of_nat n =
     (if n < 10 then [''0123456789'' ! n]
      else string_of_nat (n div 10) @ [''0123456789'' ! (n mod 10)])"

text \<open>\<^verbatim>\<open>sub in s\<close> on strings: \<open>sub\<close> occurs in \<open>s\<close> as a contiguous run.\<close>

fun contains :: "string \<Rightarrow> string \<Rightarrow> bool" where
  "contains sub [] = (sub = [])"
| "contains sub (c # cs) = (take (length sub) (c # cs) = sub \<or> contains sub cs)"

text \<open>
  JSON-serializable values: everything but an object, at any depth.
\<close>

fun serializable :: "pyval \<Rightarrow> bool" where
  "serializable VNone = True"
| "serializable (VBool b) = True"
| "serializable (VInt n) = True"
| "serializable (VStr s) = True"
| "serializable (VList xs) = list_all serializable xs"
| "serializable (VDict kvs) = list_all (\<lambda>kv. serializable (snd kv)) kvs"
| "serializable (VObj n) = False"

definition serializable_state :: "state \<Rightarrow> bool" where
  "serializable_state d = list_all (\<lambda>kv. serializable (snd kv)) d"

section \<open>Hello World (python/01-hello-world/main.py)\<close>

text \<open>
  The nodes assign into the dictionary they are given and return it; the model returns the
  updated dictionary. Output written with \<^verbatim>\<open>print\<close> is not modelled.
\<close>

definition greet :: "runtime \<Rightarrow> state \<Rightarrow> state" where
  "greet rt state =
     (let name = dict_get state ''name'' (VStr ''World'')
      in dict_set state ''greeting'' (VStr (''Hello, '' @ fstring_field rt name @ ''!'')))"

definition farewell :: "state \<Rightarrow> state" where
  "farewell state = dict_set state ''farewell'' (VStr ''Goodbye! Thanks for using DuraGraph.'')"

section \<open>Conversation store (python/02-chatbot/main.py)\<close>

text \<open>
  \<^verbatim>\<open>ConversationStore._store\<close> is a \<^verbatim>\<open>defaultdict(list)\<close>. Its keys are the thread ids after
  hashing: a list or a dictionary is unhashable (\<^verbatim>\<open>TypeError\<close>), and \<^verbatim>\<open>True\<close> and \<^verbatim>\<open>1\<close> are one
  key, as are \<^verbatim>\<open>False\<close> and \<^verbatim>\<open>0\<close>. The annotation of the methods is \<^verbatim>\<open>thread_id: str\<close>, the
  keys \<open>KStr\<close>.
\<close>

datatype hkey = KNone | KInt int | KStr string | KObj nat

fun py_hash_key :: "pyval \<Rightarrow> py_error + hkey" where
  "py_hash_key VNone = Inr KNone"
| "py_hash_key (VBool b) = Inr (KInt (if b then 1 else 0))"
| "py_hash_key (VInt n) = Inr (KInt n)"
| "py_hash_key (VStr s) = Inr (KStr s)"
| "py_hash_key (VList xs) = Inl TypeError"
| "py_hash_key (VDict kvs) = Inl TypeError"
| "py_hash_key (VObj n) = Inr (KObj n)"

type_synonym store = "(hkey \<times> pyval list) list"

definition new_store :: store where
  "new_store = []"

text \<open>The message dictionary \<^verbatim>\<open>{"role": role, "content": content}\<close>.\<close>

definition message :: "pyval \<Rightarrow> pyval \<Rightarrow> pyval" where
  "message role content = VDict [(''role'', role), (''content'', content)]"

text \<open>
  \<^verbatim>\<open>self._store[thread_id]\<close>: a \<^verbatim>\<open>defaultdict\<close> enters a missing key with an empty list
  before it returns that list.
\<close>

definition store_item :: "store \<Rightarrow> hkey \<Rightarrow> pyval list \<times> store" where
  "store_item st thread_id =
     (case map_of st thread_id of
        None \<Rightarrow> ([], AList.update thread_id [] st)
      | Some msgs \<Rightarrow> (msgs, st))"

definition get_messages :: "store \<Rightarrow> hkey \<Rightarrow> pyval list \<times> store" where
  "get_messages st thread_id = store_item st thread_id"

definition add_message :: "store \<Rightarrow> hkey \<Rightarrow> pyval \<Rightarrow> pyval \<Rightarrow> store" where
  "add_message st thread_id role content =
     (let (msgs, st') = store_item st thread_id
      in AList.update thread_id (msgs @ [message role content]) st')"

definition clear :: "store \<Rightarrow> hkey \<Rightarrow> store" where
  "clear st thread_id =
     (if map_of st thread_id \<noteq> None then AList.delete thread_id st else st)"

section \<open>Chatbot nodes (python/02-chatbot/main.py)\<close>

text \<open>
  A node that raises returns \<open>Inl\<close> the exception; the nodes that call the global
  \<^verbatim>\<open>conversation_store\<close> take the store and return it with the state.
\<close>

definition load_history :: "state \<Rightarrow> store \<Rightarrow> py_error + state \<times> store" where
  "load_history state st =
     (let thread_id = dict_get state ''thread_id'' (VStr ''default'')
      in case py_hash_key thread_id of
           Inl e \<Rightarrow> Inl e
         | Inr k \<Rightarrow>
             (let (msgs, st') = get_messages st k
              in Inr (dict_set state ''messages'' (VList msgs), st')))"

text \<open>\<^verbatim>\<open>x.append(item)\<close>: only a list has the method.\<close>

fun py_append :: "pyval \<Rightarrow> pyval \<Rightarrow> py_error + pyval" where
  "py_append (VList xs) item = Inr (VList (xs @ [item]))"
| "py_append _ item = Inl AttributeError"

text \<open>
  \<^verbatim>\<open>state["messages"].append(item)\<close>: the list held under the key is extended in place, so the
  state holds the longer list under the same key.
\<close>

definition append_to_messages :: "state \<Rightarrow> pyval \<Rightarrow> py_error + state" where
  "append_to_messages state item =
     (case dict_getitem state ''messages'' of
        Inl e \<Rightarrow> Inl e
      | Inr ms \<Rightarrow>
          (case py_append ms item of
             Inl e \<Rightarrow> Inl e
           | Inr ms' \<Rightarrow> Inr (dict_set state ''messages'' ms')))"

definition add_user_message :: "state \<Rightarrow> py_error + state" where
  "add_user_message state =
     (let user_input = dict_get state ''input'' (VStr '''');
          thread_id = dict_get state ''thread_id'' (VStr ''default'')
      in if \<not> truthy user_input then Inr state
         else append_to_messages state (message (VStr ''user'') user_input))"

text \<open>
  \<^verbatim>\<open>for msg in messages[-5:]\<close>: the items the loop visits. A list gives its last five
  items, a \<^verbatim>\<open>str\<close> its last five characters as strings of length one. Nothing else can be
  sliced: a dictionary raises \<^verbatim>\<open>TypeError\<close> (a slice is unhashable; from Python 3.12 on it is
  hashable and the exception is \<^verbatim>\<open>KeyError\<close>), the other values are not subscriptable.
\<close>

fun last_five :: "pyval \<Rightarrow> py_error + pyval list" where
  "last_five (VList xs) = Inr (drop (length xs - 5) xs)"
| "last_five (VStr s) = Inr (map (\<lambda>c. VStr [c]) (drop (length s - 5) s))"
| "last_five _ = Inl TypeError"

text \<open>\<^verbatim>\<open>x[key]\<close> with a string key: only a dictionary can have it.\<close>

fun subscript_str :: "pyval \<Rightarrow> string \<Rightarrow> py_error + pyval" where
  "subscript_str (VDict kvs) k = dict_getitem kvs k"
| "subscript_str _ k = Inl TypeError"

text \<open>\<^verbatim>\<open>x[-1]\<close>.\<close>

fun index_last :: "pyval \<Rightarrow> py_error + pyval" where
  "index_last (VList xs) = (if xs = [] then Inl IndexError else Inr (last xs))"
| "index_last (VStr s) = (if s = [] then Inl IndexError else Inr (VStr [last s]))"
| "index_last (VDict kvs) = Inl KeyError"
| "index_last _ = Inl TypeError"

text \<open>\<^verbatim>\<open>x.lower()\<close> and \<^verbatim>\<open>len(x)\<close>.\<close>

fun str_lower :: "runtime \<Rightarrow> pyval \<Rightarrow> py_error + string" where
  "str_lower rt (VStr s) = Inr (py_lower rt s)"
| "str_lower rt _ = Inl AttributeError"

fun py_len :: "pyval \<Rightarrow> py_error + nat" where
  "py_len (VList xs) = Inr (length xs)"
| "py_len (VStr s) = Inr (length s)"
| "py_len (VDict kvs) = Inr (length kvs)"
| "py_len _ = Inl TypeError"

text \<open>\<^verbatim>\<open>sep.join(lines)\<close>.\<close>

fun join :: "string \<Rightarrow> string list \<Rightarrow> string" where
  "join sep [] = []"
| "join sep [l] = l"
| "join sep (l # ls) = l @ sep @ join sep ls"

text \<open>
  The list comprehension \<^verbatim>\<open>[f"{msg['role']}: {msg['content']}" for msg in ...]\<close>: the first
  item that has no \<^verbatim>\<open>'role'\<close> or no \<^verbatim>\<open>'content'\<close> ends it with the exception.
\<close>

fun context_lines :: "runtime \<Rightarrow> pyval list \<Rightarrow> py_error + string list" where
  "context_lines rt [] = Inr []"
| "context_lines rt (msg # msgs) =
     (case subscript_str msg ''role'' of
        Inl e \<Rightarrow> Inl e
      | Inr r \<Rightarrow>
          (case subscript_str msg ''content'' of
             Inl e \<Rightarrow> Inl e
           | Inr c \<Rightarrow>
               (case context_lines rt msgs of
                  Inl e \<Rightarrow> Inl e
                | Inr ls \<Rightarrow> Inr ((fstring_field rt r @ '': '' @ fstring_field rt c) # ls))))"

text \<open>\<^verbatim>\<open>messages[-1]["content"].lower() if messages else ""\<close>.\<close>

definition last_user_message :: "runtime \<Rightarrow> pyval \<Rightarrow> py_error + string" where
  "last_user_message rt messages =
     (if truthy messages then
        (case index_last messages of
           Inl e \<Rightarrow> Inl e
         | Inr m \<Rightarrow>
             (case subscript_str m ''content'' of
                Inl e \<Rightarrow> Inl e
              | Inr c \<Rightarrow> str_lower rt c))
      else Inr '''')"

text \<open>The rule-based reply: the \<^verbatim>\<open>if\<close>/\<^verbatim>\<open>elif\<close> chain, in the order of the source.\<close>

definition reply :: "runtime \<Rightarrow> pyval \<Rightarrow> string \<Rightarrow> py_error + string" where
  "reply rt messages user_message =
     (if contains ''hello'' user_message \<or> contains ''hi'' user_message then
        Inr ''Hello! How can I help you today?''
      else if contains ''how are you'' user_message then
        Inr ''I'm doing great, thank you for asking! How can I assist you?''
      else if contains ''bye'' user_message \<or> contains ''goodbye'' user_message then
        Inr ''Goodbye! Feel free to come back anytime.''
      else if contains ''name'' user_message then
        Inr ''I'm DuraGraph Bot, your helpful assistant!''
      else
        (case py_len messages of
           Inl e \<Rightarrow> Inl e
         | Inr msg_count \<Rightarrow>
             (case index_last messages of
                Inl e \<Rightarrow> Inl e
              | Inr m \<Rightarrow>
                  (case subscript_str m ''content'' of
                     Inl e \<Rightarrow> Inl e
                   | Inr c \<Rightarrow>
                       Inr (''I understand you said: '' @ [CHR 0x27] @ fstring_field rt c
                            @ [CHR 0x27] @ ''. This is message #'' @ string_of_nat msg_count
                            @ '' in our conversation. How can I help further?'')))))"

definition generate_response :: "runtime \<Rightarrow> state \<Rightarrow> py_error + state" where
  "generate_response rt state =
     (let messages = dict_get state ''messages'' (VList [])
      in case last_five messages of
           Inl e \<Rightarrow> Inl e
         | Inr recent \<Rightarrow>
             (case context_lines rt recent of
                Inl e \<Rightarrow> Inl e
              | Inr ls \<Rightarrow>
                  (let context = join [CHR 0x0A] ls
                   in case last_user_message rt messages of
                        Inl e \<Rightarrow> Inl e
                      | Inr user_message \<Rightarrow>
                          (case reply rt messages user_message of
                             Inl e \<Rightarrow> Inl e
                           | Inr response \<Rightarrow>
                               Inr (dict_set state ''response'' (VStr response))))))"

text \<open>
  \<^verbatim>\<open>save_response\<close> extends \<^verbatim>\<open>state["messages"]\<close> before it calls the store, and the store
  hashes the thread id only then.
\<close>

definition save_response :: "state \<Rightarrow> store \<Rightarrow> py_error + state \<times> store" where
  "save_response state st =
     (let thread_id = dict_get state ''thread_id'' (VStr ''default'');
          response = dict_get state ''response'' (VStr '''')
      in if \<not> truthy response then Inr (state, st)
         else
           (case append_to_messages state (message (VStr ''assistant'') response) of
              Inl e \<Rightarrow> Inl e
            | Inr state' \<Rightarrow>
                (case py_hash_key thread_id of
                   Inl e \<Rightarrow> Inl e
                 | Inr k \<Rightarrow>
                     (let st1 = add_message st k (VStr ''user'')
                                  (dict_get state' ''input'' (VStr ''''));
                          st2 = add_message st1 k (VStr ''assistant'') response
                      in Inr (state', st2)))))"

text \<open>
  The six example nodes under one name, each applied to a state record and the global
  conversation store. The Hello World nodes and the two chatbot nodes that never call the
  store return it as it was.
\<close>

datatype example_node =
  Greet | Farewell | LoadHistory | AddUserMessage | GenerateResponse | SaveResponse

fun run_node :: "runtime \<Rightarrow> example_node \<Rightarrow> state \<Rightarrow> store \<Rightarrow> py_error + state \<times> store" where
  "run_node rt Greet s st = Inr (greet rt s, st)"
| "run_node rt Farewell s st = Inr (farewell s, st)"
| "run_node rt LoadHistory s st = load_history s st"
| "run_node rt AddUserMessage s st =
     (case add_user_message s of Inl e \<Rightarrow> Inl e | Inr s' \<Rightarrow> Inr (s', st))"
| "run_node rt GenerateResponse s st =
     (case generate_response rt s of Inl e \<Rightarrow> Inl e | Inr s' \<Rightarrow> Inr (s', st))"
| "run_node rt SaveResponse s st = save_response s st"

section \<open>Shapes of messages\<close>

text \<open>
  \<open>has_key k m\<close>: \<open>m\<close> is a dictionary with the key \<open>k\<close>. \<open>has_str_field k m\<close>: \<open>m\<close> is a
  dictionary whose value under \<open>k\<close> is a \<^verbatim>\<open>str\<close>.
\<close>

fun has_key :: "string \<Rightarrow> pyval \<Rightarrow> bool" where
  "has_key k (VDict d) = (k \<in> set (keys d))"
| "has_key k _ = False"

fun has_str_field :: "string \<Rightarrow> pyval \<Rightarrow> bool" where
  "has_str_field k (VDict d) = (case map_of d k of Some (VStr c) \<Rightarrow> True | _ \<Rightarrow> False)"
| "has_str_field k _ = False"

section \<open>Stores the program can reach\<close>

text \<open>
  \<^verbatim>\<open>conversation_store\<close> is created empty when the module is loaded and is changed only
  through its methods: by the nodes, which the engine applies to serializable state records
  (the invariant of the state record), and by direct calls with \<^verbatim>\<open>str\<close> arguments, as the
  annotations of the methods require and the tests make.
\<close>

definition serializable_store :: "store \<Rightarrow> bool" where
  "serializable_store st = list_all (\<lambda>kv. list_all serializable (snd kv)) st"

inductive reachable :: "store \<Rightarrow> bool" where
  fresh: "reachable new_store"
| node: "reachable st \<Longrightarrow> serializable_state s \<Longrightarrow> run_node rt n s st = Inr (s', st')
         \<Longrightarrow> reachable st'"
| added: "reachable st \<Longrightarrow> reachable (add_message st k (VStr role) (VStr content))"
| cleared: "reachable st \<Longrightarrow> reachable (clear st k)"
| read: "reachable st \<Longrightarrow> reachable (snd (get_messages st k))"

section \<open>A runtime for ASCII text\<close>

text \<open>
  \<^verbatim>\<open>str.lower\<close> on ASCII text: the letters A to Z go to a to z and every other character
  stays. With it the rule-based reply of the chatbot can be evaluated on the inputs of the
  tests (python/02-chatbot/test_chatbot.py).
\<close>

definition ascii_lower :: "string \<Rightarrow> string" where
  "ascii_lower s =
     map (\<lambda>c. case map_of (zip ''ABCDEFGHIJKLMNOPQRSTUVWXYZ'' ''abcdefghijklmnopqrstuvwxyz'') c of
                 None \<Rightarrow> c
               | Some l \<Rightarrow> l) s"

section \<open>The engine: graphs, the run ledger and execution\<close>

text \<open>
  \<^verbatim>\<open>Graph\<close>, \<^verbatim>\<open>node\<close> and \<^verbatim>\<open>Worker\<close> are imported from the \<^verbatim>\<open>duragraph\<close> package, whose code
  is not among the source files; the examples only call it. What follows is written from
  the specification of the engine.
\<close>

text \<open>
  Modelled from the spec: a Node (section 3), "a function-like unit \<^verbatim>\<open>apply(state) -> state\<close>
  that ... may fail". Suspension and side effects on external stores are invisible to the
  engine and are left out.
\<close>

type_synonym node = "state \<Rightarrow> py_error + state"

text \<open>
  Modelled from the spec: the execution plan of a Graph (section 3), "either a strict linear
  order (as in the examples) or a dependency DAG". An edge \<open>(a, b)\<close> of a DAG plan says
  that \<open>b\<close> depends on \<open>a\<close>.
\<close>

datatype plan = Linear "string list" | Dag "(string \<times> string) list"

text \<open>
  Modelled from the spec: a Graph (section 3), "a named, immutable collection of Nodes plus
  an execution plan".
\<close>

record graph =
  graph_name :: string
  graph_nodes :: "(string \<times> node) list"
  graph_plan :: plan

text \<open>
  Modelled from the spec: the error taxonomy of section 7 for graph construction,
  \<^verbatim>\<open>ValidationError\<close> with its subtype \<^verbatim>\<open>CycleError\<close>, which names the offending cycle; the
  other constructors are the validation failures that section 4.1 lists.
\<close>

datatype validation_error =
    CycleError "string list"
  | UnresolvedReference string
  | DuplicateNodeName
  | EmptyGraph

text \<open>
  Modelled from the spec: a walk in the plan graph of section 4.1, a list of node names in
  which each name is followed by one that depends on it.
\<close>

fun walk :: "(string \<times> string) list \<Rightarrow> string list \<Rightarrow> bool" where
  "walk E [] = True"
| "walk E [a] = True"
| "walk E (a # b # w) = ((a, b) \<in> set E \<and> walk E (b # w))"

text \<open>
  Modelled from the spec: "the offending cycle" of section 4.1, a walk of at least one edge
  that ends where it starts.
\<close>

definition is_cycle :: "(string \<times> string) list \<Rightarrow> string list \<Rightarrow> bool" where
  "is_cycle E c = (2 \<le> length c \<and> hd c = last c \<and> walk E c)"

text \<open>
  Modelled from the spec: the acyclicity check of section 4.1, for which the spec fixes no
  algorithm. \<open>grow\<close> extends each walk at its front by every edge into its first node.
\<close>

definition grow :: "(string \<times> string) list \<Rightarrow> string list list \<Rightarrow> string list list" where
  "grow E ws = concat (map (\<lambda>w. map (\<lambda>e. fst e # w) (filter (\<lambda>e. snd e = hd w) E)) ws)"

text \<open>
  Modelled from the spec: the acyclicity check of section 4.1. \<open>walks E k\<close> lists the walks
  of \<open>k + 1\<close> edges.
\<close>

fun walks :: "(string \<times> string) list \<Rightarrow> nat \<Rightarrow> string list list" where
  "walks E 0 = map (\<lambda>e. [fst e, snd e]) E"
| "walks E (Suc k) = grow E (walks E k)"

text \<open>
  Modelled from the spec: the acyclicity check of section 4.1. \<open>first_repeat\<close> cuts from a
  list the stretch between the first name that occurs again and its next occurrence.
\<close>

fun first_repeat :: "string list \<Rightarrow> string list option" where
  "first_repeat [] = None"
| "first_repeat (x # xs) =
     (if x \<in> set xs then Some (x # takeWhile (\<lambda>y. y \<noteq> x) xs @ [x]) else first_repeat xs)"

text \<open>
  Modelled from the spec: the acyclicity check of section 4.1. A walk of \<open>2 * length E + 1\<close>
  edges has more nodes than the plan has names, so a name repeats in it, and the stretch
  that \<open>first_repeat\<close> cuts from it is the cycle reported. A plan without such a walk has no
  cycle.
\<close>

definition find_cycle :: "(string \<times> string) list \<Rightarrow> string list option" where
  "find_cycle E = (case walks E (2 * length E) of [] \<Rightarrow> None | w # ws \<Rightarrow> first_repeat w)"

text \<open>
  Modelled from the spec: the names a plan refers to, which section 4.1 requires to "resolve
  to declared Nodes".
\<close>

fun plan_references :: "plan \<Rightarrow> string list" where
  "plan_references (Linear order) = order"
| "plan_references (Dag E) = map fst E @ map snd E"

text \<open>
  Modelled from the spec: \<^verbatim>\<open>build(name, nodes, plan) -> Graph | ValidationError\<close> of section
  4.1, which "validates: all plan references resolve to declared Nodes; no duplicate Node
  names; plan graph (if DAG) is acyclic (reject with \<^verbatim>\<open>CycleError\<close> naming the offending
  cycle); at least one Node exists". The spec gives no order for the checks; section 8
  requires \<^verbatim>\<open>CycleError\<close> for every cyclic plan and some failure for every unresolved
  reference, so the cycle check comes first.
\<close>

definition build :: "string \<Rightarrow> (string \<times> node) list \<Rightarrow> plan \<Rightarrow> validation_error + graph" where
  "build name nodes p =
     (case (case p of Linear order \<Rightarrow> None | Dag E \<Rightarrow> find_cycle E) of
        Some c \<Rightarrow> Inl (CycleError c)
      | None \<Rightarrow>
          (case filter (\<lambda>n. n \<notin> set (map fst nodes)) (plan_references p) of
             n # ns \<Rightarrow> Inl (UnresolvedReference n)
           | [] \<Rightarrow>
               if \<not> distinct (map fst nodes) then Inl DuplicateNodeName
               else if nodes = [] then Inl EmptyGraph
               else Inr \<lparr>graph_name = name, graph_nodes = nodes, graph_plan = p\<rparr>))"

text \<open>
  Modelled from the spec: the outcome of a Run Ledger Entry (section 3), \<^verbatim>\<open>success\<close> or
  \<^verbatim>\<open>failure\<close>; a failure carries "the error detail" (section 4.2).
\<close>

datatype outcome = Success | Failure py_error

text \<open>
  Modelled from the spec: a Run Ledger Entry (section 3), without its timestamp.
\<close>

record ledger_entry =
  run_id :: string
  node_name :: string
  sequence_index :: nat
  snapshot :: state
  outcome :: outcome

text \<open>
  Modelled from the spec: the Run Ledger (sections 3 and 4.4), "append-only"; \<^verbatim>\<open>append\<close> puts
  an entry at its end.
\<close>

type_synonym ledger = "ledger_entry list"

text \<open>
  Modelled from the spec: \<^verbatim>\<open>latest_success(run_id) -> entry | None\<close> of section 4.4, the entry
  with "the highest \<^verbatim>\<open>sequence_index\<close> with outcome \<^verbatim>\<open>success\<close> for \<^verbatim>\<open>run_id\<close>".
\<close>

fun latest_success :: "ledger \<Rightarrow> string \<Rightarrow> ledger_entry option" where
  "latest_success [] rid = None"
| "latest_success (e # L) rid =
     (case latest_success L rid of
        None \<Rightarrow> if run_id e = rid \<and> outcome e = Success then Some e else None
      | Some e' \<Rightarrow>
          if run_id e = rid \<and> outcome e = Success \<and> sequence_index e' < sequence_index e
          then Some e else Some e')"

text \<open>
  Modelled from the spec: a Run (section 3), as the control plane assigns it: its id and its
  initial State Record. The graph name and the thread id are not read by the engine.
\<close>

record run =
  assigned_id :: string
  initial_state :: state

text \<open>
  Modelled from the spec: \<^verbatim>\<open>ExecutionFailure\<close> of section 4.2 and \<^verbatim>\<open>NodeExecutionError\<close> of
  section 7, with "the identity and index of the failing Node". Only linear plans are
  executed here; the concurrent execution of a DAG plan is outside this model.
\<close>

datatype execution_failure =
    NodeExecutionError string nat py_error
  | UnresolvedNode string
  | DagPlan

text \<open>
  Modelled from the spec: what \<^verbatim>\<open>execute\<close> of section 4.2 leaves behind, "\<^verbatim>\<open>FinalState |
  ExecutionFailure\<close>", the Run Ledger with the entries it appended (the storage never
  fails), and the names of the nodes it invoked, in order.
\<close>

record execution =
  result :: "execution_failure + state"
  ledger_after :: ledger
  invoked :: "string list"

text \<open>
  Modelled from the spec: the loop of section 4.2. "For each remaining Node in plan order:
  invoke the Node with the current State Record; on success, append a Run Ledger Entry with
  outcome \<^verbatim>\<open>success\<close> and the returned State Record, then advance; on failure, append an
  entry with outcome \<^verbatim>\<open>failure\<close> and the error detail, and stop. When the plan is exhausted
  ... return the final State Record."
\<close>

fun run_nodes ::
  "(string \<times> node) list \<Rightarrow> string \<Rightarrow> nat \<Rightarrow> string list \<Rightarrow> state \<Rightarrow> ledger \<Rightarrow> string list
     \<Rightarrow> execution" where
  "run_nodes nodes rid i [] s L called = \<lparr>result = Inr s, ledger_after = L, invoked = called\<rparr>"
| "run_nodes nodes rid i (n # rest) s L called =
     (case map_of nodes n of
        None \<Rightarrow> \<lparr>result = Inl (UnresolvedNode n), ledger_after = L, invoked = called\<rparr>
      | Some f \<Rightarrow>
          (case f s of
             Inr s' \<Rightarrow>
               run_nodes nodes rid (Suc i) rest s'
                 (L @ [\<lparr>run_id = rid, node_name = n, sequence_index = i, snapshot = s',
                        outcome = Success\<rparr>])
                 (called @ [n])
           | Inl err \<Rightarrow>
               \<lparr>result = Inl (NodeExecutionError n i err),
                ledger_after =
                  L @ [\<lparr>run_id = rid, node_name = n, sequence_index = i, snapshot = s,
                         outcome = Failure err\<rparr>],
                invoked = called @ [n]\<rparr>))"

text \<open>
  Modelled from the spec: \<^verbatim>\<open>execute(graph, run)\<close> of section 4.2. "Determine the resume point
  by querying the Run Ledger for the highest \<^verbatim>\<open>sequence_index\<close> with outcome \<^verbatim>\<open>success\<close> for
  \<^verbatim>\<open>run_id\<close>; if none, start at the plan's first Node with the run's initial State Record;
  otherwise resume with the snapshot from that ledger entry."
\<close>

definition execute :: "graph \<Rightarrow> run \<Rightarrow> ledger \<Rightarrow> execution" where
  "execute g r L =
     (case graph_plan g of
        Dag E \<Rightarrow> \<lparr>result = Inl DagPlan, ledger_after = L, invoked = []\<rparr>
      | Linear order \<Rightarrow>
          (case latest_success L (assigned_id r) of
             None \<Rightarrow> run_nodes (graph_nodes g) (assigned_id r) 0 order (initial_state r) L []
           | Some e \<Rightarrow>
               run_nodes (graph_nodes g) (assigned_id r) (Suc (sequence_index e))
                 (drop (Suc (sequence_index e)) order) (snapshot e) L []))"

section \<open>Dictionaries\<close>

lemma keys_dict_set: "set (keys (dict_set d k v)) = insert k (set (keys d))"
  by (auto simp: keys_def dict_set_def update_keys)

lemma map_of_dict_set: "map_of (dict_set d k v) = (map_of d)(k \<mapsto> v)"
  by (simp add: dict_set_def update_conv')

lemma dict_get_dict_set:
  "dict_get (dict_set d k v) k' dflt = (if k' = k then v else dict_get d k' dflt)"
  by (simp add: dict_get_def map_of_dict_set)

section \<open>Hello World: the two nodes in plan order\<close>

text \<open>
  C1. Running \<open>greet\<close> and then \<open>farewell\<close> on the empty state record gives a state with
  both written keys: \<open>greeting\<close> is "Hello, World!" (no \<open>name\<close> key is present, so the
  default is used) and \<open>farewell\<close> holds the farewell text. Nothing else is in the state.
\<close>

theorem hello_world_final_state:
  "farewell (greet rt []) =
     [(''greeting'', VStr ''Hello, World!''),
      (''farewell'', VStr ''Goodbye! Thanks for using DuraGraph.'')]"
  by (simp add: greet_def farewell_def dict_get_def dict_set_def fstring_field_def)

section \<open>No node drops a key\<close>

lemma keys_append_to_messages:
  "append_to_messages s item = Inr s' \<Longrightarrow> set (keys s') = insert ''messages'' (set (keys s))"
  by (auto simp: append_to_messages_def keys_dict_set split: sum.splits)

lemma keys_greet: "set (keys (greet rt s)) = insert ''greeting'' (set (keys s))"
  by (simp add: greet_def keys_dict_set)

lemma keys_farewell: "set (keys (farewell s)) = insert ''farewell'' (set (keys s))"
  by (simp add: farewell_def keys_dict_set)

lemma keys_load_history:
  "load_history s st = Inr (s', st') \<Longrightarrow> set (keys s') = insert ''messages'' (set (keys s))"
  by (auto simp: load_history_def keys_dict_set split: sum.splits prod.splits)

lemma keys_add_user_message:
  "add_user_message s = Inr s' \<Longrightarrow> set (keys s) \<subseteq> set (keys s')"
  by (auto simp: add_user_message_def Let_def dest!: keys_append_to_messages split: if_splits)

lemma keys_generate_response:
  "generate_response rt s = Inr s' \<Longrightarrow> set (keys s') = insert ''response'' (set (keys s))"
  by (auto simp: generate_response_def Let_def keys_dict_set split: sum.splits)

lemma keys_save_response:
  "save_response s st = Inr (s', st') \<Longrightarrow> set (keys s) \<subseteq> set (keys s')"
  by (auto simp: save_response_def Let_def dest!: keys_append_to_messages
      split: if_splits sum.splits)

text \<open>
  C2. For each of the six example nodes and every state record (and store) on which the
  node returns normally, every key of the input state is a key of the returned state.
\<close>

theorem nodes_keep_keys:
  assumes run: "run_node rt n s st = Inr (s', st')"
  shows "set (keys s) \<subseteq> set (keys s')"
proof (cases n)
  case Greet
  with run show ?thesis by (auto simp: keys_greet)
next
  case Farewell
  with run show ?thesis by (auto simp: keys_farewell)
next
  case LoadHistory
  with run show ?thesis by (auto dest: keys_load_history)
next
  case AddUserMessage
  with run show ?thesis by (auto dest: keys_add_user_message split: sum.splits)
next
  case GenerateResponse
  with run show ?thesis by (auto dest: keys_generate_response split: sum.splits)
next
  case SaveResponse
  with run show ?thesis by (auto dest: keys_save_response)
qed

theorem nodes_keep_keys_witness:
  "\<forall>rt. run_node rt SaveResponse
          [(''thread_id'', VStr ''t''), (''input'', VStr ''Hi''), (''response'', VStr ''Hello!''),
           (''messages'', VList [])] new_store =
        Inr ([(''thread_id'', VStr ''t''), (''input'', VStr ''Hi''), (''response'', VStr ''Hello!''),
              (''messages'', VList [message (VStr ''assistant'') (VStr ''Hello!'')])],
             [(KStr ''t'', [message (VStr ''user'') (VStr ''Hi''),
                            message (VStr ''assistant'') (VStr ''Hello!'')])])
      \<and> set (keys [(''thread_id'', VStr ''t''), (''input'', VStr ''Hi''),
                    (''response'', VStr ''Hello!''), (''messages'', VList [])])
        \<subseteq> set (keys [(''thread_id'', VStr ''t''), (''input'', VStr ''Hi''),
                      (''response'', VStr ''Hello!''),
                      (''messages'', VList [message (VStr ''assistant'') (VStr ''Hello!'')])])"
  (is "\<forall>rt. ?run rt \<and> ?kept")
proof (intro allI)
  fix rt
  have run: "?run rt"
    by (simp add: save_response_def append_to_messages_def dict_getitem_def dict_get_def
        dict_set_def add_message_def store_item_def new_store_def Let_def)
  from run nodes_keep_keys [OF run] show "?run rt \<and> ?kept"
    by blast
qed

section \<open>The conversation store\<close>

lemma fst_get_messages:
  "fst (get_messages st k) = (case map_of st k of None \<Rightarrow> [] | Some ms \<Rightarrow> ms)"
  by (simp add: get_messages_def store_item_def split: option.splits)

lemma map_of_add_message:
  "map_of (add_message st k r c) = (map_of st)(k \<mapsto> fst (get_messages st k) @ [message r c])"
  by (auto simp: add_message_def get_messages_def store_item_def update_conv' split: option.splits)

lemma map_of_clear: "map_of (clear st k) = (map_of st)(k := None)"
  by (auto simp: clear_def delete_conv')

lemma map_of_snd_get_messages:
  "map_of (snd (get_messages st k)) = (map_of st)(k \<mapsto> fst (get_messages st k))"
  by (auto simp: get_messages_def store_item_def update_conv' split: option.splits)

lemma get_after_add:
  "fst (get_messages (add_message st k r c) k') =
     (if k' = k then fst (get_messages st k) @ [message r c] else fst (get_messages st k'))"
  by (simp add: fst_get_messages map_of_add_message)

lemma get_after_clear:
  "fst (get_messages (clear st k) k') = (if k' = k then [] else fst (get_messages st k'))"
  by (simp add: fst_get_messages map_of_clear)

lemma get_after_adds:
  "fst (get_messages (foldl (\<lambda>st (r, c). add_message st k r c) st rcs) k) =
     fst (get_messages st k) @ map (\<lambda>(r, c). message r c) rcs"
  by (induction rcs arbitrary: st) (auto simp: get_after_add)

text \<open>
  C4. The store keeps one ordered message sequence per thread. For every thread id \<open>t\<close>:
  a new store gives no messages; after any sequence of \<open>add_message\<close> calls for \<open>t\<close> on a
  new store, \<open>get_messages\<close> returns exactly the added messages, as dictionaries with the
  keys \<open>role\<close> and \<open>content\<close>, in insertion order (and on any store, they follow the
  messages the thread had); after \<open>clear\<close>, \<open>get_messages\<close> returns no messages.
\<close>

theorem store_is_ordered_sequence:
  "fst (get_messages new_store t) = []
   \<and> fst (get_messages (foldl (\<lambda>st (role, content). add_message st t role content) new_store rcs) t)
       = map (\<lambda>(role, content). VDict [(''role'', role), (''content'', content)]) rcs
   \<and> fst (get_messages (foldl (\<lambda>st (role, content). add_message st t role content) st rcs) t)
       = fst (get_messages st t) @ map (\<lambda>(role, content). VDict [(''role'', role), (''content'', content)]) rcs
   \<and> fst (get_messages (clear st t) t) = []"
  using get_after_adds[of t new_store rcs] get_after_adds[of t st rcs]
  by (simp add: get_after_clear message_def) (simp add: fst_get_messages new_store_def)

text \<open>
  C5. Threads are isolated: for distinct thread ids \<open>t1\<close> and \<open>t2\<close> and any store, neither
  \<open>add_message\<close> nor \<open>clear\<close> on \<open>t1\<close> changes what \<open>get_messages\<close> returns for \<open>t2\<close>.
\<close>

theorem store_isolates_threads:
  "t1 \<noteq> t2 \<Longrightarrow>
     fst (get_messages (add_message st t1 role content) t2) = fst (get_messages st t2)
     \<and> fst (get_messages (clear st t1) t2) = fst (get_messages st t2)"
  by (simp add: get_after_add get_after_clear)


theorem store_isolates_threads_witness:
  "KStr ''thread1'' \<noteq> KStr ''thread2''
   \<and> fst (get_messages
          (add_message [(KStr ''thread2'', [message (VStr ''user'') (VStr ''Hello from thread 2'')])]
             (KStr ''thread1'') (VStr ''user'') (VStr ''Hello from thread 1''))
          (KStr ''thread2''))
       = [message (VStr ''user'') (VStr ''Hello from thread 2'')]
   \<and> fst (get_messages
          (clear [(KStr ''thread1'', [message (VStr ''user'') (VStr ''Hello from thread 1'')]),
                  (KStr ''thread2'', [message (VStr ''user'') (VStr ''Hello from thread 2'')])]
             (KStr ''thread1''))
          (KStr ''thread2''))
       = [message (VStr ''user'') (VStr ''Hello from thread 2'')]"
proof -
  have ne: "KStr ''thread1'' \<noteq> KStr ''thread2''"
    by simp
  show ?thesis
    using store_isolates_threads [OF ne,
        of "[(KStr ''thread2'', [message (VStr ''user'') (VStr ''Hello from thread 2'')])]"
           "VStr ''user''" "VStr ''Hello from thread 1''"]
      store_isolates_threads [OF ne,
        of "[(KStr ''thread1'', [message (VStr ''user'') (VStr ''Hello from thread 1'')]),
             (KStr ''thread2'', [message (VStr ''user'') (VStr ''Hello from thread 2'')])]"]
    by (simp add: get_messages_def store_item_def)
qed

section \<open>The chatbot nodes\<close>

lemma absent_key: "map_of d k = None \<longleftrightarrow> k \<notin> set (keys d)"
  by (simp add: keys_def map_of_eq_None_iff)

lemma has_key_subscript:
  "has_key k m \<Longrightarrow> \<exists>v. subscript_str m k = Inr v"
  by (cases m) (auto simp: dict_getitem_def absent_key split: option.splits)

lemma has_str_field_subscript:
  "has_str_field k m \<Longrightarrow> \<exists>c. subscript_str m k = Inr (VStr c)"
  by (cases m) (auto simp: dict_getitem_def split: option.splits pyval.splits)

lemma context_lines_total:
  "list_all (has_key ''role'') ms \<Longrightarrow> list_all (has_str_field ''content'') ms \<Longrightarrow>
     \<exists>ls. context_lines rt ms = Inr ls"
proof (induction ms)
  case Nil
  then show ?case by simp
next
  case (Cons m ms)
  from Cons.prems obtain r where r: "subscript_str m ''role'' = Inr r"
    using has_key_subscript by fastforce
  from Cons.prems obtain c where c: "subscript_str m ''content'' = Inr (VStr c)"
    using has_str_field_subscript by fastforce
  from Cons obtain ls where "context_lines rt ms = Inr ls"
    by auto
  with r c show ?case by simp
qed

lemma list_all_drop: "list_all P xs \<Longrightarrow> list_all P (drop n xs)"
  by (metis append_take_drop_id list_all_append)

lemma reply_nonempty:
  assumes "ms \<noteq> []" and "subscript_str (last ms) ''content'' = Inr (VStr c)"
  shows "\<exists>resp. resp \<noteq> [] \<and> reply rt (VList ms) um = Inr resp"
  using assms by (simp add: reply_def)

lemma generate_response_on_history:
  assumes msgs: "map_of s ''messages'' = Some (VList ms)" and ne: "ms \<noteq> []"
    and role: "list_all (has_key ''role'') ms"
    and content: "list_all (has_str_field ''content'') ms"
  shows "\<exists>resp. resp \<noteq> [] \<and> generate_response rt s = Inr (dict_set s ''response'' (VStr resp))"
proof -
  have get: "dict_get s ''messages'' (VList []) = VList ms"
    using msgs by (simp add: dict_get_def)
  obtain ls where ls: "context_lines rt (drop (length ms - 5) ms) = Inr ls"
    using context_lines_total [OF list_all_drop [OF role] list_all_drop [OF content]] by blast
  have "has_str_field ''content'' (last ms)"
    using ne content by (simp add: list_all_iff)
  then obtain c where c: "subscript_str (last ms) ''content'' = Inr (VStr c)"
    using has_str_field_subscript by blast
  have um: "last_user_message rt (VList ms) = Inr (py_lower rt c)"
    using ne c by (simp add: last_user_message_def)
  obtain resp where resp: "resp \<noteq> []" "reply rt (VList ms) (py_lower rt c) = Inr resp"
    using reply_nonempty [OF ne c] by blast
  have "generate_response rt s = Inr (dict_set s ''response'' (VStr resp))"
    by (simp add: generate_response_def get ls um resp)
  with resp show ?thesis by blast
qed

lemma generate_response_on_empty:
  assumes "''messages'' \<notin> set (keys s) \<or> map_of s ''messages'' = Some (VList [])"
  shows "generate_response rt s = Inl IndexError"
proof -
  have get: "dict_get s ''messages'' (VList []) = VList []"
    using assms by (auto simp: dict_get_def absent_key [symmetric])
  show ?thesis
    by (simp add: generate_response_def get last_user_message_def reply_def)
qed

text \<open>
  C8, as the code has it. \<open>generate_response\<close> returns the state with \<open>response\<close> set to a
  non-empty string for every state whose \<open>messages\<close> value is a non-empty list of
  dictionaries that each have a \<open>role\<close> key and a string under \<open>content\<close>. For every state
  whose \<open>messages\<close> value is absent or the empty list it raises \<^verbatim>\<open>IndexError\<close>: the guard
  sets the user message to the empty string, no keyword matches it, and the fallback branch
  indexes \<^verbatim>\<open>messages[-1]\<close>.
\<close>

theorem generate_response_total_on_histories:
  "(map_of s ''messages'' = Some (VList ms) \<and> ms \<noteq> []
      \<and> list_all (has_key ''role'') ms \<and> list_all (has_str_field ''content'') ms
    \<longrightarrow> (\<exists>resp. resp \<noteq> [] \<and> generate_response rt s = Inr (dict_set s ''response'' (VStr resp))))
   \<and> (''messages'' \<notin> set (keys s) \<or> map_of s ''messages'' = Some (VList [])
    \<longrightarrow> generate_response rt s = Inl IndexError)"
  using generate_response_on_history [of s ms rt] generate_response_on_empty [of s rt]
  by blast

theorem generate_response_total_on_histories_witness:
  "\<forall>rt.
     (map_of [(''messages'', VList [message (VStr ''user'') (VStr ''Hello'')])] ''messages''
        = Some (VList [message (VStr ''user'') (VStr ''Hello'')])
      \<and> [message (VStr ''user'') (VStr ''Hello'')] \<noteq> []
      \<and> list_all (has_key ''role'') [message (VStr ''user'') (VStr ''Hello'')]
      \<and> list_all (has_str_field ''content'') [message (VStr ''user'') (VStr ''Hello'')]
      \<and> (\<exists>resp. resp \<noteq> [] \<and>
             generate_response rt [(''messages'', VList [message (VStr ''user'') (VStr ''Hello'')])]
             = Inr (dict_set [(''messages'', VList [message (VStr ''user'') (VStr ''Hello'')])]
                      ''response'' (VStr resp))))
     \<and> (''messages'' \<notin> set (keys [(''thread_id'', VStr ''t'')])
        \<and> generate_response rt [(''thread_id'', VStr ''t'')] = Inl IndexError)"
  (is "\<forall>rt. (?m \<and> ?ne \<and> ?role \<and> ?content \<and> ?ok rt) \<and> (?absent \<and> ?raises rt)")
proof (intro allI)
  fix rt
  have hyps: "?m \<and> ?ne \<and> ?role \<and> ?content"
    by (simp add: message_def keys_def)
  have absent: ?absent
    by (simp add: keys_def)
  from hyps absent
    generate_response_total_on_histories
      [of "[(''messages'', VList [message (VStr ''user'') (VStr ''Hello'')])]"
          "[message (VStr ''user'') (VStr ''Hello'')]" rt]
    generate_response_total_on_histories [of "[(''thread_id'', VStr ''t'')]" "[]" rt]
  show "(?m \<and> ?ne \<and> ?role \<and> ?content \<and> ?ok rt) \<and> (?absent \<and> ?raises rt)"
    by blast
qed

text \<open>
  A message without a \<open>role\<close> key: the state satisfies what C8 asks of the history (a
  non-empty list of dictionaries, each with a string under \<open>content\<close>), and the node raises
  \<^verbatim>\<open>KeyError\<close> while it builds the context.
\<close>

theorem generate_response_needs_role:
  "\<forall>rt. map_of [(''messages'', VList [VDict [(''content'', VStr ''Hello'')]])] ''messages''
          = Some (VList [VDict [(''content'', VStr ''Hello'')]])
      \<and> [VDict [(''content'', VStr ''Hello'')]] \<noteq> []
      \<and> list_all (has_str_field ''content'') [VDict [(''content'', VStr ''Hello'')]]
      \<and> generate_response rt [(''messages'', VList [VDict [(''content'', VStr ''Hello'')]])]
          = Inl KeyError"
  by (simp add: generate_response_def dict_get_def dict_getitem_def)

text \<open>
  C9. For every state whose \<open>input\<close> key is absent or maps to the empty string,
  \<open>add_user_message\<close> returns the state as it was, and the conversation store is as it was.
\<close>

theorem add_user_message_without_input:
  assumes "''input'' \<notin> set (keys s) \<or> map_of s ''input'' = Some (VStr '''')"
  shows "add_user_message s = Inr s \<and> run_node rt AddUserMessage s st = Inr (s, st)"
proof -
  have "dict_get s ''input'' (VStr '''') = VStr ''''"
    using assms by (auto simp: dict_get_def absent_key [symmetric])
  then show ?thesis
    by (simp add: add_user_message_def)
qed

theorem add_user_message_without_input_witness:
  "\<forall>rt. map_of [(''thread_id'', VStr ''test''), (''input'', VStr ''''), (''messages'', VList [])]
           ''input'' = Some (VStr '''')
     \<and> add_user_message
           [(''thread_id'', VStr ''test''), (''input'', VStr ''''), (''messages'', VList [])]
         = Inr [(''thread_id'', VStr ''test''), (''input'', VStr ''''), (''messages'', VList [])]
     \<and> run_node rt AddUserMessage
           [(''thread_id'', VStr ''test''), (''input'', VStr ''''), (''messages'', VList [])]
           [(KStr ''test'', [message (VStr ''user'') (VStr ''Hello'')])]
         = Inr ([(''thread_id'', VStr ''test''), (''input'', VStr ''''), (''messages'', VList [])],
                [(KStr ''test'', [message (VStr ''user'') (VStr ''Hello'')])])"
  (is "\<forall>rt. ?empty \<and> ?same \<and> ?node rt")
proof (intro allI)
  fix rt
  have empty: ?empty
    by simp
  from empty add_user_message_without_input
      [of "[(''thread_id'', VStr ''test''), (''input'', VStr ''''), (''messages'', VList [])]"
          rt "[(KStr ''test'', [message (VStr ''user'') (VStr ''Hello'')])]"]
  show "?empty \<and> ?same \<and> ?node rt"
    by blast
qed

lemma append_to_messages_list:
  "map_of s ''messages'' = Some (VList ms) \<Longrightarrow>
     append_to_messages s item = Inr (dict_set s ''messages'' (VList (ms @ [item])))"
  by (simp add: append_to_messages_def dict_getitem_def)

lemma save_response_on_response:
  assumes resp: "map_of s ''response'' = Some (VStr r)" and ne: "r \<noteq> []"
    and msgs: "map_of s ''messages'' = Some (VList ms)"
    and key: "py_hash_key (dict_get s ''thread_id'' (VStr ''default'')) = Inr k"
  shows "save_response s st =
           Inr (dict_set s ''messages'' (VList (ms @ [message (VStr ''assistant'') (VStr r)])),
                add_message
                  (add_message st k (VStr ''user'') (dict_get s ''input'' (VStr '''')))
                  k (VStr ''assistant'') (VStr r))"
proof -
  have r: "dict_get s ''response'' (VStr '''') = VStr r"
    using resp by (simp add: dict_get_def)
  show ?thesis
    using ne key
    by (simp add: save_response_def r append_to_messages_list [OF msgs] dict_get_dict_set Let_def)
qed

lemma save_response_without_response:
  assumes "''response'' \<notin> set (keys s) \<or> map_of s ''response'' = Some (VStr '''')"
  shows "save_response s st = Inr (s, st)"
proof -
  have "dict_get s ''response'' (VStr '''') = VStr ''''"
    using assms by (auto simp: dict_get_def absent_key [symmetric])
  then show ?thesis
    by (simp add: save_response_def)
qed

text \<open>
  C10, as the code has it. For every state whose \<open>response\<close> value is a non-empty string,
  whose \<open>messages\<close> value is a list and whose thread id (\<open>thread_id\<close>, or "default" when the
  key is absent) is hashable, \<open>save_response\<close> returns the state with the assistant message
  appended to \<open>messages\<close>, and the store with exactly two messages appended to that
  thread, in this order: the user message, whose content is the state's \<open>input\<close> value (the
  empty string when the key is absent), and the assistant message. No other thread changes.
  For every state whose \<open>response\<close> is absent or the empty string, the state and the store
  are returned as they were.
\<close>

theorem save_response_effect:
  "(map_of s ''response'' = Some (VStr r) \<and> r \<noteq> []
      \<and> map_of s ''messages'' = Some (VList ms)
      \<and> py_hash_key (dict_get s ''thread_id'' (VStr ''default'')) = Inr k
    \<longrightarrow> (\<exists>st'.
          save_response s st =
            Inr (dict_set s ''messages'' (VList (ms @ [message (VStr ''assistant'') (VStr r)])),
                 st')
          \<and> st' = add_message
                    (add_message st k (VStr ''user'') (dict_get s ''input'' (VStr '''')))
                    k (VStr ''assistant'') (VStr r)
          \<and> fst (get_messages st' k) =
              fst (get_messages st k)
                @ [message (VStr ''user'') (dict_get s ''input'' (VStr '''')),
                   message (VStr ''assistant'') (VStr r)]
          \<and> (\<forall>k'. k' \<noteq> k \<longrightarrow> fst (get_messages st' k') = fst (get_messages st k'))))
   \<and> (''response'' \<notin> set (keys s) \<or> map_of s ''response'' = Some (VStr '''')
    \<longrightarrow> save_response s st = Inr (s, st))"
proof (intro conjI impI)
  assume hyps: "map_of s ''response'' = Some (VStr r) \<and> r \<noteq> []
      \<and> map_of s ''messages'' = Some (VList ms)
      \<and> py_hash_key (dict_get s ''thread_id'' (VStr ''default'')) = Inr k"
  then have "save_response s st =
           Inr (dict_set s ''messages'' (VList (ms @ [message (VStr ''assistant'') (VStr r)])),
                add_message
                  (add_message st k (VStr ''user'') (dict_get s ''input'' (VStr '''')))
                  k (VStr ''assistant'') (VStr r))"
    using save_response_on_response [of s r ms k st] by blast
  then show "\<exists>st'.
          save_response s st =
            Inr (dict_set s ''messages'' (VList (ms @ [message (VStr ''assistant'') (VStr r)])),
                 st')
          \<and> st' = add_message
                    (add_message st k (VStr ''user'') (dict_get s ''input'' (VStr '''')))
                    k (VStr ''assistant'') (VStr r)
          \<and> fst (get_messages st' k) =
              fst (get_messages st k)
                @ [message (VStr ''user'') (dict_get s ''input'' (VStr '''')),
                   message (VStr ''assistant'') (VStr r)]
          \<and> (\<forall>k'. k' \<noteq> k \<longrightarrow> fst (get_messages st' k') = fst (get_messages st k'))"
    by (simp add: get_after_add)
next
  assume "''response'' \<notin> set (keys s) \<or> map_of s ''response'' = Some (VStr '''')"
  then show "save_response s st = Inr (s, st)"
    by (rule save_response_without_response)
qed

theorem save_response_effect_witness:
  "(map_of [(''thread_id'', VStr ''test_save''), (''input'', VStr ''Test input''),
            (''response'', VStr ''Test response''), (''messages'', VList [])] ''response''
      = Some (VStr ''Test response'')
    \<and> ''Test response'' \<noteq> []
    \<and> map_of [(''thread_id'', VStr ''test_save''), (''input'', VStr ''Test input''),
              (''response'', VStr ''Test response''), (''messages'', VList [])] ''messages''
      = Some (VList [])
    \<and> py_hash_key (dict_get [(''thread_id'', VStr ''test_save''), (''input'', VStr ''Test input''),
              (''response'', VStr ''Test response''), (''messages'', VList [])]
              ''thread_id'' (VStr ''default'')) = Inr (KStr ''test_save'')
    \<and> save_response [(''thread_id'', VStr ''test_save''), (''input'', VStr ''Test input''),
              (''response'', VStr ''Test response''), (''messages'', VList [])] new_store
      = Inr ([(''thread_id'', VStr ''test_save''), (''input'', VStr ''Test input''),
              (''response'', VStr ''Test response''),
              (''messages'', VList [message (VStr ''assistant'') (VStr ''Test response'')])],
             [(KStr ''test_save'',
               [message (VStr ''user'') (VStr ''Test input''),
                message (VStr ''assistant'') (VStr ''Test response'')])]))
   \<and> (map_of [(''thread_id'', VStr ''test''), (''input'', VStr ''Test''),
              (''response'', VStr ''''), (''messages'', VList [])] ''response''
        = Some (VStr '''')
      \<and> save_response [(''thread_id'', VStr ''test''), (''input'', VStr ''Test''),
              (''response'', VStr ''''), (''messages'', VList [])] new_store
        = Inr ([(''thread_id'', VStr ''test''), (''input'', VStr ''Test''),
                (''response'', VStr ''''), (''messages'', VList [])], new_store))"
  (is "(?resp \<and> ?ne \<and> ?msgs \<and> ?key \<and> ?saved) \<and> (?empty \<and> ?same)")
proof -
  have hyps: "?resp \<and> ?ne \<and> ?msgs \<and> ?key"
    by (simp add: dict_get_def)
  have empty: ?empty
    by simp
  from hyps save_response_effect
      [of "[(''thread_id'', VStr ''test_save''), (''input'', VStr ''Test input''),
            (''response'', VStr ''Test response''), (''messages'', VList [])]"
          "''Test response''" "[]" "KStr ''test_save''" new_store]
  have saved: ?saved
    by (simp add: dict_get_def dict_set_def add_message_def store_item_def new_store_def
        message_def)
  from empty save_response_effect
      [of "[(''thread_id'', VStr ''test''), (''input'', VStr ''Test''),
            (''response'', VStr ''''), (''messages'', VList [])]" _ _ _ new_store]
  have same: ?same
    by blast
  from hyps saved empty same show ?thesis
    by blast
qed

text \<open>
  A state with a non-empty \<open>response\<close> and no \<open>messages\<close> key: \<open>save_response\<close> raises
  \<^verbatim>\<open>KeyError\<close> and appends nothing.
\<close>

theorem save_response_needs_messages:
  "map_of [(''thread_id'', VStr ''t''), (''input'', VStr ''Hi''), (''response'', VStr ''Hello!'')]
      ''response'' = Some (VStr ''Hello!'')
   \<and> ''Hello!'' \<noteq> []
   \<and> save_response
        [(''thread_id'', VStr ''t''), (''input'', VStr ''Hi''), (''response'', VStr ''Hello!'')]
        new_store
      = Inl KeyError"
  by (simp add: save_response_def dict_get_def append_to_messages_def dict_getitem_def)

text \<open>
  The other two ways \<open>save_response\<close> raises on a non-empty \<open>response\<close>: a \<open>messages\<close> value
  that is not a list has no \<^verbatim>\<open>append\<close>, and a thread id that is a list cannot be a key of
  the store.
\<close>

lemma save_response_needs_list:
  "save_response [(''response'', VStr ''Hello!''), (''messages'', VStr ''none'')] new_store
     = Inl AttributeError"
  by (simp add: save_response_def dict_get_def append_to_messages_def dict_getitem_def)

lemma save_response_needs_hashable_thread:
  "save_response
     [(''thread_id'', VList [VStr ''t'']), (''response'', VStr ''Hello!''), (''messages'', VList [])]
     new_store
   = Inl TypeError"
  by (simp add: save_response_def dict_get_def append_to_messages_def dict_getitem_def
      dict_set_def)

section \<open>The replies the tests expect\<close>

text \<open>
  \<^verbatim>\<open>test_generate_response_greeting\<close>, \<^verbatim>\<open>test_generate_response_name_question\<close> and the
  fallback reply, which counts the messages: with \<open>ascii_lower\<close> for \<^verbatim>\<open>str.lower\<close> and any
  formatting of other values.
\<close>

lemma generate_response_greeting:
  "generate_response \<lparr>py_format = fmt, py_lower = ascii_lower\<rparr>
     [(''messages'', VList [message (VStr ''user'') (VStr ''Hello'')])]
   = Inr [(''messages'', VList [message (VStr ''user'') (VStr ''Hello'')]),
          (''response'', VStr ''Hello! How can I help you today?'')]"
  by (simp add: generate_response_def dict_get_def dict_set_def dict_getitem_def message_def
      last_user_message_def reply_def ascii_lower_def fstring_field_def)

lemma generate_response_name_question:
  "generate_response \<lparr>py_format = fmt, py_lower = ascii_lower\<rparr>
     [(''messages'', VList [message (VStr ''user'') (VStr ''What is your name?'')])]
   = Inr [(''messages'', VList [message (VStr ''user'') (VStr ''What is your name?'')]),
          (''response'', VStr ''I'm DuraGraph Bot, your helpful assistant!'')]"
  by (simp add: generate_response_def dict_get_def dict_set_def dict_getitem_def message_def
      last_user_message_def reply_def ascii_lower_def fstring_field_def)

lemma generate_response_fallback:
  "generate_response \<lparr>py_format = fmt, py_lower = ascii_lower\<rparr>
     [(''messages'', VList [message (VStr ''user'') (VStr ''Tell me more'')])]
   = Inr [(''messages'', VList [message (VStr ''user'') (VStr ''Tell me more'')]),
          (''response'',
           VStr (''I understand you said: '' @ [CHR 0x27] @ ''Tell me more'' @ [CHR 0x27]
                 @ ''. This is message #1 in our conversation. How can I help further?''))]"
  by (simp add: generate_response_def dict_get_def dict_set_def dict_getitem_def message_def
      last_user_message_def reply_def ascii_lower_def fstring_field_def)

section \<open>Serializable state records\<close>

lemma list_all_update:
  "list_all (\<lambda>kv. P (snd kv)) al \<Longrightarrow> P v \<Longrightarrow> list_all (\<lambda>kv. P (snd kv)) (AList.update k v al)"
  by (induction al) auto

lemma list_all_delete:
  "list_all P al \<Longrightarrow> list_all P (AList.delete k al)"
  by (induction al) auto

lemma list_all_map_of:
  "list_all (\<lambda>kv. P (snd kv)) al \<Longrightarrow> map_of al k = Some v \<Longrightarrow> P v"
  by (induction al) (auto split: if_splits)

lemma serializable_dict_set:
  "serializable_state s \<Longrightarrow> serializable v \<Longrightarrow> serializable_state (dict_set s k v)"
  by (simp add: serializable_state_def dict_set_def list_all_update)

lemma serializable_dict_get:
  "serializable_state s \<Longrightarrow> serializable dflt \<Longrightarrow> serializable (dict_get s k dflt)"
  by (auto simp: serializable_state_def dict_get_def dest: list_all_map_of split: option.splits)

lemma serializable_message:
  "serializable (message r c) \<longleftrightarrow> serializable r \<and> serializable c"
  by (simp add: message_def)

lemma serializable_store_item:
  assumes "serializable_store st"
  shows "list_all serializable (fst (store_item st k)) \<and> serializable_store (snd (store_item st k))"
proof (cases "map_of st k")
  case None
  with assms show ?thesis
    by (simp add: store_item_def serializable_store_def list_all_update)
next
  case (Some ms)
  with assms have "list_all serializable ms"
    unfolding serializable_store_def by (rule_tac list_all_map_of)
  with Some assms show ?thesis
    by (simp add: store_item_def)
qed

lemma serializable_add_message:
  assumes "serializable_store st" and "serializable r" and "serializable c"
  shows "serializable_store (add_message st k r c)"
proof -
  obtain ms st' where item: "store_item st k = (ms, st')"
    by (cases "store_item st k")
  with serializable_store_item [OF assms(1), of k]
  have "list_all serializable ms" and "serializable_store st'"
    by simp_all
  with assms(2,3) item show ?thesis
    by (simp add: add_message_def serializable_store_def list_all_update serializable_message)
qed

lemma serializable_clear:
  "serializable_store st \<Longrightarrow> serializable_store (clear st k)"
  by (simp add: clear_def serializable_store_def list_all_delete)

lemma serializable_append_to_messages:
  assumes "serializable_state s" and "serializable item"
    and "append_to_messages s item = Inr s'"
  shows "serializable_state s'"
proof -
  from assms(3) obtain ms where ms: "map_of s ''messages'' = Some (VList ms)"
    and s': "s' = dict_set s ''messages'' (VList (ms @ [item]))"
    by (auto simp: append_to_messages_def dict_getitem_def
        split: option.splits sum.splits elim: py_append.elims)
  from assms(1) ms have "serializable (VList ms)"
    unfolding serializable_state_def by (rule list_all_map_of)
  with assms(1,2) s' show ?thesis
    by (simp add: serializable_dict_set)
qed

lemma serializable_greet:
  "serializable_state s \<Longrightarrow> serializable_state (greet rt s)"
  by (simp add: greet_def serializable_dict_set)

lemma serializable_farewell:
  "serializable_state s \<Longrightarrow> serializable_state (farewell s)"
  by (simp add: farewell_def serializable_dict_set)

lemma serializable_load_history:
  assumes "serializable_state s" and "serializable_store st"
    and "load_history s st = Inr (s', st')"
  shows "serializable_state s' \<and> serializable_store st'"
proof -
  from assms(3) obtain k ms where item: "store_item st k = (ms, st')"
    and s': "s' = dict_set s ''messages'' (VList ms)"
    by (auto simp: load_history_def get_messages_def split: sum.splits prod.splits)
  from serializable_store_item [OF assms(2), of k] item
  have "list_all serializable ms" and "serializable_store st'"
    by simp_all
  with assms(1) s' show ?thesis
    by (simp add: serializable_dict_set)
qed

lemma serializable_add_user_message:
  assumes "serializable_state s" and "add_user_message s = Inr s'"
  shows "serializable_state s'"
proof (cases "truthy (dict_get s ''input'' (VStr ''''))")
  case False
  with assms show ?thesis
    by (simp add: add_user_message_def)
next
  case True
  have "serializable (message (VStr ''user'') (dict_get s ''input'' (VStr '''')))"
    using assms(1) by (simp add: serializable_message serializable_dict_get)
  with True assms show ?thesis
    by (auto simp: add_user_message_def dest: serializable_append_to_messages)
qed

lemma serializable_generate_response:
  assumes "serializable_state s" and "generate_response rt s = Inr s'"
  shows "serializable_state s'"
  using assms
  by (auto simp: generate_response_def Let_def serializable_dict_set split: sum.splits)

lemma serializable_save_response:
  assumes state: "serializable_state s" and store: "serializable_store st"
    and run: "save_response s st = Inr (s', st')"
  shows "serializable_state s' \<and> serializable_store st'"
proof (cases "truthy (dict_get s ''response'' (VStr ''''))")
  case False
  with assms show ?thesis
    by (simp add: save_response_def)
next
  case True
  have resp: "serializable (dict_get s ''response'' (VStr ''''))"
    using state by (simp add: serializable_dict_get)
  from True run obtain k where
    app: "append_to_messages s (message (VStr ''assistant'') (dict_get s ''response'' (VStr '''')))
            = Inr s'"
    and st': "st' = add_message
                (add_message st k (VStr ''user'') (dict_get s' ''input'' (VStr '''')))
                k (VStr ''assistant'') (dict_get s ''response'' (VStr ''''))"
    by (auto simp: save_response_def Let_def split: sum.splits)
  have s': "serializable_state s'"
    using serializable_append_to_messages [OF state _ app] resp
    by (simp add: serializable_message)
  then have "serializable (dict_get s' ''input'' (VStr ''''))"
    by (simp add: serializable_dict_get)
  with s' st' store resp show ?thesis
    by (simp add: serializable_add_message)
qed

lemma run_node_serializable:
  assumes state: "serializable_state s" and store: "serializable_store st"
    and run: "run_node rt n s st = Inr (s', st')"
  shows "serializable_state s' \<and> serializable_store st'"
proof (cases n)
  case Greet
  with assms show ?thesis by (auto simp: serializable_greet)
next
  case Farewell
  with assms show ?thesis by (auto simp: serializable_farewell)
next
  case LoadHistory
  with assms show ?thesis by (auto dest: serializable_load_history)
next
  case AddUserMessage
  with assms show ?thesis by (auto dest: serializable_add_user_message split: sum.splits)
next
  case GenerateResponse
  with assms show ?thesis by (auto dest: serializable_generate_response split: sum.splits)
next
  case SaveResponse
  with assms show ?thesis by (auto dest: serializable_save_response)
qed

lemma reachable_serializable:
  "reachable st \<Longrightarrow> serializable_store st"
proof (induction rule: reachable.induct)
  case fresh
  show ?case by (simp add: new_store_def serializable_store_def)
next
  case (node st s rt n s' st')
  then show ?case using run_node_serializable by blast
next
  case (added st k role content)
  then show ?case by (simp add: serializable_add_message)
next
  case (cleared st k)
  then show ?case by (simp add: serializable_clear)
next
  case (read st k)
  then show ?case using serializable_store_item [of st k] by (simp add: get_messages_def)
qed

text \<open>
  What a node writes. A node returns the state as it was, or sets one key: to a string, to
  the store's messages of a thread (\<open>load_history\<close>), or to the \<open>messages\<close> list extended by
  one message whose role is "user" or "assistant" and whose content is the state's \<open>input\<close>
  or \<open>response\<close> value.
\<close>

lemma append_to_messages_Inr:
  assumes "append_to_messages s item = Inr s'"
  shows "\<exists>ms. map_of s ''messages'' = Some (VList ms)
            \<and> s' = dict_set s ''messages'' (VList (ms @ [item]))"
  using assms
  by (auto simp: append_to_messages_def dict_getitem_def
      split: option.splits sum.splits elim: py_append.elims)

lemma load_history_writes:
  assumes "load_history s st = Inr (s', st')"
  shows "\<exists>t. s' = dict_set s ''messages'' (VList (fst (get_messages st t)))"
  using assms
  by (auto simp: load_history_def split: sum.splits prod.splits)
    (metis fst_conv)

lemma add_user_message_writes:
  assumes "add_user_message s = Inr s'"
  shows "s' = s
       \<or> (\<exists>ms. map_of s ''messages'' = Some (VList ms)
             \<and> s' = dict_set s ''messages''
                      (VList (ms @ [message (VStr ''user'') (dict_get s ''input'' (VStr ''''))])))"
  using assms
  by (auto simp: add_user_message_def Let_def dest: append_to_messages_Inr split: if_splits)

lemma generate_response_writes:
  assumes "generate_response rt s = Inr s'"
  shows "\<exists>text. s' = dict_set s ''response'' (VStr text)"
  using assms
  by (auto simp: generate_response_def Let_def split: sum.splits)

lemma save_response_writes:
  assumes "save_response s st = Inr (s', st')"
  shows "s' = s
       \<or> (\<exists>ms. map_of s ''messages'' = Some (VList ms)
             \<and> s' = dict_set s ''messages''
                      (VList (ms @ [message (VStr ''assistant'')
                                      (dict_get s ''response'' (VStr ''''))])))"
  using assms
  by (auto simp: save_response_def Let_def dest: append_to_messages_Inr
      split: if_splits sum.splits)

lemma run_node_writes:
  assumes run: "run_node rt n s st = Inr (s', st')"
  shows "s' = s
       \<or> (\<exists>k text. s' = dict_set s k (VStr text))
       \<or> (\<exists>t. s' = dict_set s ''messages'' (VList (fst (get_messages st t))))
       \<or> (\<exists>ms. map_of s ''messages'' = Some (VList ms)
             \<and> (s' = dict_set s ''messages''
                       (VList (ms @ [message (VStr ''user'')
                                       (dict_get s ''input'' (VStr ''''))]))
                \<or> s' = dict_set s ''messages''
                          (VList (ms @ [message (VStr ''assistant'')
                                          (dict_get s ''response'' (VStr ''''))]))))"
proof (cases n)
  case Greet
  with run have "s' = dict_set s ''greeting''
      (VStr (''Hello, '' @ fstring_field rt (dict_get s ''name'' (VStr ''World'')) @ ''!''))"
    by (auto simp: greet_def)
  then show ?thesis by blast
next
  case Farewell
  with run have "s' = dict_set s ''farewell'' (VStr ''Goodbye! Thanks for using DuraGraph.'')"
    by (auto simp: farewell_def)
  then show ?thesis by blast
next
  case LoadHistory
  with run show ?thesis
    using load_history_writes [of s st s' st'] by auto
next
  case AddUserMessage
  with run have "add_user_message s = Inr s'"
    by (auto split: sum.splits)
  from add_user_message_writes [OF this] show ?thesis by blast
next
  case GenerateResponse
  with run have "generate_response rt s = Inr s'"
    by (auto split: sum.splits)
  from generate_response_writes [OF this] show ?thesis by blast
next
  case SaveResponse
  with run show ?thesis
    using save_response_writes [of s st s' st'] by auto
qed

text \<open>
  C3, as the code has it. For each of the six example nodes: if the input state record is
  serializable and every message that the conversation store holds is serializable, then the
  state record that the node returns is serializable, and so is every message of the store
  it leaves. The node returns the state as it was or sets one key: to a string, to the
  store's messages of a thread, or to the \<open>messages\<close> list extended by one message with the
  keys \<open>role\<close> and \<open>content\<close>, whose role is the string "user" or "assistant" and whose content
  is the state's \<open>input\<close> or \<open>response\<close> value (any serializable value, not only a string).
\<close>

theorem nodes_keep_serializable:
  assumes state: "serializable_state s" and store: "serializable_store st"
    and run: "run_node rt n s st = Inr (s', st')"
  shows "serializable_state s' \<and> serializable_store st'
       \<and> (s' = s
          \<or> (\<exists>k text. s' = dict_set s k (VStr text))
          \<or> (\<exists>t. s' = dict_set s ''messages'' (VList (fst (get_messages st t))))
          \<or> (\<exists>ms. map_of s ''messages'' = Some (VList ms)
                \<and> (s' = dict_set s ''messages''
                          (VList (ms @ [message (VStr ''user'')
                                          (dict_get s ''input'' (VStr ''''))]))
                   \<or> s' = dict_set s ''messages''
                             (VList (ms @ [message (VStr ''assistant'')
                                             (dict_get s ''response'' (VStr ''''))])))))"
  using run_node_serializable [OF state store run] run_node_writes [OF run]
  by blast

theorem nodes_keep_serializable_witness:
  "\<forall>rt.
     serializable_state
       [(''thread_id'', VStr ''test_thread''), (''input'', VStr ''Hello there!''),
        (''messages'', VList [])]
     \<and> serializable_store
         [(KStr ''test_thread'', [message (VStr ''user'') (VStr ''Previous message'')])]
     \<and> run_node rt LoadHistory
         [(''thread_id'', VStr ''test_thread''), (''input'', VStr ''Hello there!''),
          (''messages'', VList [])]
         [(KStr ''test_thread'', [message (VStr ''user'') (VStr ''Previous message'')])]
       = Inr ([(''thread_id'', VStr ''test_thread''), (''input'', VStr ''Hello there!''),
               (''messages'', VList [message (VStr ''user'') (VStr ''Previous message'')])],
              [(KStr ''test_thread'', [message (VStr ''user'') (VStr ''Previous message'')])])
     \<and> serializable_state
         [(''thread_id'', VStr ''test_thread''), (''input'', VStr ''Hello there!''),
          (''messages'', VList [message (VStr ''user'') (VStr ''Previous message'')])]
     \<and> serializable_store
         [(KStr ''test_thread'', [message (VStr ''user'') (VStr ''Previous message'')])]"
  (is "\<forall>rt. ?before \<and> ?store \<and> ?run rt \<and> ?after \<and> ?store")
proof (intro allI)
  fix rt
  have before: ?before
    by (simp add: serializable_state_def)
  have store: ?store
    by (simp add: serializable_store_def message_def)
  have run: "?run rt"
    by (simp add: load_history_def dict_get_def dict_set_def get_messages_def store_item_def)
  from before store run nodes_keep_serializable [OF before store run]
  show "?before \<and> ?store \<and> ?run rt \<and> ?after \<and> ?store"
    by blast
qed

text \<open>
  Two inputs on which C3 as it was stated fails. \<open>load_history\<close> copies what the store
  holds: on the empty state, which is serializable, and a store that holds an object, the
  state it returns is not serializable. \<open>add_user_message\<close> on the input 5 appends a message
  whose content is the integer 5, which is no string.
\<close>

theorem serializable_depends_on_store:
  "serializable_state []
   \<and> load_history [] [(KStr ''default'', [message (VStr ''user'') (VObj 0)])]
       = Inr ([(''messages'', VList [message (VStr ''user'') (VObj 0)])],
              [(KStr ''default'', [message (VStr ''user'') (VObj 0)])])
   \<and> \<not> serializable_state [(''messages'', VList [message (VStr ''user'') (VObj 0)])]
   \<and> serializable_state [(''input'', VInt 5), (''messages'', VList [])]
   \<and> add_user_message [(''input'', VInt 5), (''messages'', VList [])]
       = Inr [(''input'', VInt 5),
              (''messages'', VList [VDict [(''role'', VStr ''user''), (''content'', VInt 5)]])]"
  by (simp add: load_history_def add_user_message_def append_to_messages_def dict_getitem_def
      dict_get_def dict_set_def get_messages_def store_item_def serializable_state_def
      message_def Let_def)

text \<open>
  The stores of the program meet the condition of C3: every store that is reached from the
  empty one, through nodes run on serializable states and through the methods called with
  strings, holds serializable messages only.
\<close>

lemma reachable_nodes_keep_serializable:
  assumes "reachable st" and "serializable_state s" and "run_node rt n s st = Inr (s', st')"
  shows "serializable_state s'"
  using assms reachable_serializable run_node_serializable by blast

section \<open>Resuming a run from the ledger\<close>

lemma latest_success_append_first:
  assumes "latest_success L rid = None"
  shows "latest_success (L @ [e]) rid =
           (if run_id e = rid \<and> outcome e = Success then Some e else None)"
  using assms by (induction L) (auto split: option.splits if_splits)

lemma execute_from_scratch:
  assumes plan: "graph_plan g = Linear [n1, n2]"
    and n1: "map_of (graph_nodes g) n1 = Some f1"
    and n2: "map_of (graph_nodes g) n2 = Some f2"
    and first: "f1 (initial_state r) = Inr s1"
    and scratch: "latest_success L0 (assigned_id r) = None"
  shows "invoked (execute g r L0) = [n1, n2]"
    and "result (execute g r L0) =
           (case f2 s1 of Inr s2 \<Rightarrow> Inr s2 | Inl err \<Rightarrow> Inl (NodeExecutionError n2 1 err))"
    and "ledger_after (execute g r L0) =
           L0 @ [\<lparr>run_id = assigned_id r, node_name = n1, sequence_index = 0, snapshot = s1,
                   outcome = Success\<rparr>,
                 (case f2 s1 of
                    Inr s2 \<Rightarrow> \<lparr>run_id = assigned_id r, node_name = n2, sequence_index = 1,
                                snapshot = s2, outcome = Success\<rparr>
                  | Inl err \<Rightarrow> \<lparr>run_id = assigned_id r, node_name = n2, sequence_index = 1,
                                 snapshot = s1, outcome = Failure err\<rparr>)]"
  using assms by (auto simp: execute_def split: sum.splits)

lemma execute_resumed:
  assumes plan: "graph_plan g = Linear [n1, n2]"
    and n2: "map_of (graph_nodes g) n2 = Some f2"
    and entry: "latest_success L (assigned_id r) = Some e" "sequence_index e = 0"
      "snapshot e = s1"
  shows "invoked (execute g r L) = [n2]"
    and "result (execute g r L) =
           (case f2 s1 of Inr s2 \<Rightarrow> Inr s2 | Inl err \<Rightarrow> Inl (NodeExecutionError n2 1 err))"
  using assms by (auto simp: execute_def split: sum.splits)

text \<open>
  What an execution that is interrupted after its first node leaves in the ledger is the
  from-scratch ledger up to the first commit, and \<open>latest_success\<close> finds that entry.
\<close>

lemma interrupted_ledger:
  assumes "latest_success L0 rid = None"
  shows "latest_success
           (L0 @ [\<lparr>run_id = rid, node_name = n1, sequence_index = 0, snapshot = s1,
                    outcome = Success\<rparr>]) rid
         = Some \<lparr>run_id = rid, node_name = n1, sequence_index = 0, snapshot = s1,
                  outcome = Success\<rparr>"
  by (simp add: latest_success_append_first [OF assms])

text \<open>
  C6. For a graph with the linear plan of two nodes and a ledger whose latest success entry
  for the run is that of node 1 (sequence index 0, holding the state node 1 returned on the
  run's initial state): \<open>execute\<close> invokes node 2 only, applies it to the snapshot of that
  entry, and its result is the result of an execution from scratch, that is, on a ledger
  with no success entry for the run.
\<close>

theorem resume_equals_from_scratch:
  assumes plan: "graph_plan g = Linear [n1, n2]"
    and n1: "map_of (graph_nodes g) n1 = Some f1"
    and n2: "map_of (graph_nodes g) n2 = Some f2"
    and first: "f1 (initial_state r) = Inr s1"
    and entry: "latest_success L (assigned_id r) = Some e" "sequence_index e = 0"
      "snapshot e = s1"
    and scratch: "latest_success L0 (assigned_id r) = None"
  shows "invoked (execute g r L) = [n2]
       \<and> result (execute g r L) =
           (case f2 s1 of Inr s2 \<Rightarrow> Inr s2 | Inl err \<Rightarrow> Inl (NodeExecutionError n2 1 err))
       \<and> invoked (execute g r L0) = [n1, n2]
       \<and> result (execute g r L) = result (execute g r L0)"
  using execute_resumed [OF plan n2 entry] execute_from_scratch [OF plan n1 n2 first scratch]
  by simp

theorem resume_equals_from_scratch_witness:
  "\<forall>rt.
     graph_plan \<lparr>graph_name = ''HelloWorld'',
                 graph_nodes = [(''greet'', \<lambda>s. Inr (greet rt s)),
                                (''farewell'', \<lambda>s. Inr (farewell s))],
                 graph_plan = Linear [''greet'', ''farewell'']\<rparr>
       = Linear [''greet'', ''farewell'']
     \<and> latest_success
         [\<lparr>run_id = ''run-1'', node_name = ''greet'', sequence_index = 0,
           snapshot = [(''greeting'', VStr ''Hello, World!'')], outcome = Success\<rparr>] ''run-1''
       = Some \<lparr>run_id = ''run-1'', node_name = ''greet'', sequence_index = 0,
                snapshot = [(''greeting'', VStr ''Hello, World!'')], outcome = Success\<rparr>
     \<and> greet rt [] = [(''greeting'', VStr ''Hello, World!'')]
     \<and> latest_success [] ''run-1'' = None
     \<and> invoked
         (execute
            \<lparr>graph_name = ''HelloWorld'',
              graph_nodes = [(''greet'', \<lambda>s. Inr (greet rt s)),
                             (''farewell'', \<lambda>s. Inr (farewell s))],
              graph_plan = Linear [''greet'', ''farewell'']\<rparr>
            \<lparr>assigned_id = ''run-1'', initial_state = []\<rparr>
            [\<lparr>run_id = ''run-1'', node_name = ''greet'', sequence_index = 0,
              snapshot = [(''greeting'', VStr ''Hello, World!'')], outcome = Success\<rparr>])
       = [''farewell'']
     \<and> result
         (execute
            \<lparr>graph_name = ''HelloWorld'',
              graph_nodes = [(''greet'', \<lambda>s. Inr (greet rt s)),
                             (''farewell'', \<lambda>s. Inr (farewell s))],
              graph_plan = Linear [''greet'', ''farewell'']\<rparr>
            \<lparr>assigned_id = ''run-1'', initial_state = []\<rparr>
            [\<lparr>run_id = ''run-1'', node_name = ''greet'', sequence_index = 0,
              snapshot = [(''greeting'', VStr ''Hello, World!'')], outcome = Success\<rparr>])
       = result
           (execute
              \<lparr>graph_name = ''HelloWorld'',
                graph_nodes = [(''greet'', \<lambda>s. Inr (greet rt s)),
                               (''farewell'', \<lambda>s. Inr (farewell s))],
                graph_plan = Linear [''greet'', ''farewell'']\<rparr>
              \<lparr>assigned_id = ''run-1'', initial_state = []\<rparr> [])
     \<and> result
         (execute
            \<lparr>graph_name = ''HelloWorld'',
              graph_nodes = [(''greet'', \<lambda>s. Inr (greet rt s)),
                             (''farewell'', \<lambda>s. Inr (farewell s))],
              graph_plan = Linear [''greet'', ''farewell'']\<rparr>
            \<lparr>assigned_id = ''run-1'', initial_state = []\<rparr> [])
       = Inr [(''greeting'', VStr ''Hello, World!''),
              (''farewell'', VStr ''Goodbye! Thanks for using DuraGraph.'')]"
  (is "\<forall>rt. ?plan rt \<and> ?entry \<and> ?first rt \<and> ?scratch \<and> ?only2 rt \<and> ?same rt \<and> ?final rt")
proof (intro allI)
  fix rt
  let ?g = "\<lparr>graph_name = ''HelloWorld'',
              graph_nodes = [(''greet'', \<lambda>s. Inr (greet rt s)),
                             (''farewell'', \<lambda>s. Inr (farewell s))],
              graph_plan = Linear [''greet'', ''farewell'']\<rparr>"
  let ?r = "\<lparr>assigned_id = ''run-1'', initial_state = []\<rparr>"
  let ?e = "\<lparr>run_id = ''run-1'', node_name = ''greet'', sequence_index = 0,
              snapshot = [(''greeting'', VStr ''Hello, World!'')], outcome = Success\<rparr>"
  have plan: "graph_plan ?g = Linear [''greet'', ''farewell'']"
    by simp
  have n1: "map_of (graph_nodes ?g) ''greet'' = Some (\<lambda>s. Inr (greet rt s))"
    by simp
  have n2: "map_of (graph_nodes ?g) ''farewell'' = Some (\<lambda>s. Inr (farewell s))"
    by simp
  have first: "?first rt"
    by (simp add: greet_def dict_get_def dict_set_def fstring_field_def)
  then have first': "Inr (greet rt (initial_state ?r))
      = (Inr [(''greeting'', VStr ''Hello, World!'')] :: py_error + state)"
    by simp
  have entry: "latest_success [?e] (assigned_id ?r) = Some ?e" "sequence_index ?e = 0"
    "snapshot ?e = [(''greeting'', VStr ''Hello, World!'')]"
    by simp_all
  have scratch: "latest_success [] (assigned_id ?r) = None"
    by simp
  from resume_equals_from_scratch [OF plan n1 n2 first' entry scratch]
  have "?only2 rt" and same: "?same rt"
    by blast+
  moreover have "?final rt"
    by (simp add: execute_def greet_def farewell_def dict_get_def dict_set_def fstring_field_def)
  ultimately show "?plan rt \<and> ?entry \<and> ?first rt \<and> ?scratch \<and> ?only2 rt \<and> ?same rt \<and> ?final rt"
    using plan entry(1) first scratch by simp
qed

section \<open>Graph construction rejects cyclic plans\<close>

lemma walk_Cons:
  "walk E (a # w) \<longleftrightarrow> w = [] \<or> (a, hd w) \<in> set E \<and> walk E w"
  by (cases w) auto

lemma walk_suffix: "walk E (p @ q) \<Longrightarrow> walk E q"
proof (induction p)
  case Nil
  then show ?case by simp
next
  case (Cons a p)
  then show ?case by (cases "p @ q") (auto simp: walk_Cons)
qed

lemma walk_prefix: "walk E (p @ q) \<Longrightarrow> walk E p"
proof (induction p)
  case Nil
  then show ?case by simp
next
  case (Cons a p)
  then show ?case by (cases p) (auto simp: walk_Cons)
qed

lemma walk_nodes:
  "walk E w \<Longrightarrow> 2 \<le> length w \<Longrightarrow> set w \<subseteq> set (map fst E @ map snd E)"
proof (induction E w rule: walk.induct)
  case (3 E a b w)
  show ?case
  proof (cases w)
    case Nil
    with "3.prems" show ?thesis by force
  next
    case (Cons c w')
    with 3 have "set (b # w) \<subseteq> set (map fst E @ map snd E)" by simp
    with "3.prems" show ?thesis by force
  qed
qed simp_all

lemma walk_reaches:
  "walk E w \<Longrightarrow> 2 \<le> length w \<Longrightarrow> (hd w, last w) \<in> (set E)\<^sup>+"
proof (induction E w rule: walk.induct)
  case (3 E a b w)
  show ?case
  proof (cases w)
    case Nil
    with "3.prems" show ?thesis by auto
  next
    case (Cons c w')
    with 3 have "(b, last (b # w)) \<in> (set E)\<^sup>+" by simp
    with "3.prems" Cons show ?thesis
      by (auto intro: trancl_into_trancl2)
  qed
qed simp_all

lemma in_grow:
  "w' \<in> set (grow E ws) \<longleftrightarrow> (\<exists>w \<in> set ws. \<exists>a. (a, hd w) \<in> set E \<and> w' = a # w)"
  by (force simp: grow_def)

lemma walks_sound:
  "w \<in> set (walks E k) \<Longrightarrow> walk E w \<and> length w = k + 2"
proof (induction k arbitrary: w)
  case 0
  then show ?case by auto
next
  case (Suc k)
  then obtain u a where u: "u \<in> set (walks E k)" "(a, hd u) \<in> set E" "w = a # u"
    by (auto simp: in_grow)
  with Suc.IH [of u] show ?case
    by (auto simp: walk_Cons)
qed

lemma cycle_predecessor:
  assumes "(v, v) \<in> R\<^sup>+" and "(v, x) \<in> R\<^sup>+"
  shows "\<exists>z. (z, x) \<in> R \<and> (v, z) \<in> R\<^sup>+"
proof -
  from assms(2) obtain z where z: "(v, z) \<in> R\<^sup>*" "(z, x) \<in> R"
    by (blast dest: tranclD2)
  from z(1) assms(1) have "(v, z) \<in> R\<^sup>+"
    by (auto dest: rtranclD)
  with z(2) show ?thesis by blast
qed

lemma cyclic_walks:
  assumes "(v, v) \<in> (set E)\<^sup>+"
  shows "\<exists>w \<in> set (walks E k). (v, hd w) \<in> (set E)\<^sup>+"
proof (induction k)
  case 0
  from cycle_predecessor [OF assms assms] obtain z where
    "(z, v) \<in> set E" "(v, z) \<in> (set E)\<^sup>+" by blast
  then have "[z, v] \<in> set (walks E 0)" "(v, hd [z, v]) \<in> (set E)\<^sup>+"
    by force+
  then show ?case by blast
next
  case (Suc k)
  then obtain w where w: "w \<in> set (walks E k)" "(v, hd w) \<in> (set E)\<^sup>+"
    by blast
  from cycle_predecessor [OF assms w(2)] obtain z where
    z: "(z, hd w) \<in> set E" "(v, z) \<in> (set E)\<^sup>+" by blast
  with w(1) have "z # w \<in> set (walks E (Suc k))"
    by (auto simp: in_grow)
  with z(2) show ?case
    by (intro bexI [of _ "z # w"]) simp_all
qed

lemma long_walk_repeats:
  assumes "w \<in> set (walks E (2 * length E))"
  shows "\<not> distinct w"
proof
  assume "distinct w"
  then have "card (set w) = length w"
    by (rule distinct_card)
  moreover from walks_sound [OF assms] have w: "walk E w" "length w = 2 * length E + 2"
    by simp_all
  moreover from w have "set w \<subseteq> set (map fst E @ map snd E)"
    by (intro walk_nodes) simp_all
  then have "card (set w) \<le> card (set (map fst E @ map snd E))"
    by (intro card_mono) simp_all
  moreover have "card (set (map fst E @ map snd E)) \<le> length (map fst E @ map snd E)"
    by (rule card_length)
  ultimately show False by simp
qed

lemma first_repeat_finds:
  "\<not> distinct w \<Longrightarrow> \<exists>c. first_repeat w = Some c"
  by (induction w) auto

lemma first_repeat_segment:
  "first_repeat w = Some c \<Longrightarrow>
     \<exists>pre post. w = pre @ c @ post \<and> hd c = last c \<and> 2 \<le> length c"
proof (induction w)
  case Nil
  then show ?case by simp
next
  case (Cons x xs)
  show ?case
  proof (cases "x \<in> set xs")
    case True
    with Cons.prems have c: "c = x # takeWhile (\<lambda>y. y \<noteq> x) xs @ [x]"
      by simp
    from True have "dropWhile (\<lambda>y. y \<noteq> x) xs \<noteq> []"
      by (simp add: dropWhile_eq_Nil_conv)
    moreover from this have "hd (dropWhile (\<lambda>y. y \<noteq> x) xs) = x"
      using hd_dropWhile [of "\<lambda>y. y \<noteq> x" xs] by simp
    ultimately have "dropWhile (\<lambda>y. y \<noteq> x) xs = x # tl (dropWhile (\<lambda>y. y \<noteq> x) xs)"
      by (cases "dropWhile (\<lambda>y. y \<noteq> x) xs") simp_all
    then have "xs = takeWhile (\<lambda>y. y \<noteq> x) xs @ x # tl (dropWhile (\<lambda>y. y \<noteq> x) xs)"
      using takeWhile_dropWhile_id [of "\<lambda>y. y \<noteq> x" xs] by simp
    then have "x # xs = [] @ c @ tl (dropWhile (\<lambda>y. y \<noteq> x) xs)"
      using c by simp
    moreover have "hd c = last c \<and> 2 \<le> length c"
      using c by simp
    ultimately show ?thesis by blast
  next
    case False
    with Cons.prems have "first_repeat xs = Some c"
      by simp
    from Cons.IH [OF this] obtain pre post where
      "xs = pre @ c @ post" "hd c = last c \<and> 2 \<le> length c" by blast
    then have "x # xs = (x # pre) @ c @ post \<and> hd c = last c \<and> 2 \<le> length c"
      by simp
    then show ?thesis by blast
  qed
qed

lemma find_cycle_sound:
  assumes "find_cycle E = Some c"
  shows "is_cycle E c"
proof -
  from assms obtain w ws where ws: "walks E (2 * length E) = w # ws" "first_repeat w = Some c"
    by (auto simp: find_cycle_def split: list.splits)
  then have "walk E w"
    using walks_sound [of w E "2 * length E"] by simp
  moreover from first_repeat_segment [OF ws(2)] obtain pre post where
    seg: "w = pre @ c @ post" "hd c = last c" "2 \<le> length c" by blast
  ultimately have "walk E c"
    using walk_suffix [of E pre "c @ post"] walk_prefix [of E c post] by simp
  with seg show ?thesis
    by (simp add: is_cycle_def)
qed

lemma find_cycle_complete:
  assumes "(v, v) \<in> (set E)\<^sup>+"
  shows "\<exists>c. find_cycle E = Some c"
proof -
  from cyclic_walks [OF assms, of "2 * length E"] obtain w ws where
    ws: "walks E (2 * length E) = w # ws"
    by (cases "walks E (2 * length E)") auto
  then have "\<not> distinct w"
    using long_walk_repeats [of w E] by simp
  from first_repeat_finds [OF this] ws show ?thesis
    by (auto simp: find_cycle_def)
qed

text \<open>A reported cycle is one: the plan graph has a node that depends on itself.\<close>

lemma is_cycle_cyclic:
  "is_cycle E c \<Longrightarrow> \<exists>v. (v, v) \<in> (set E)\<^sup>+"
  using walk_reaches [of E c] by (auto simp: is_cycle_def)

text \<open>
  C7. For every DAG plan that contains a cycle (some node depends on itself through one or
  more edges), and whatever the name and the nodes, \<open>build\<close> returns no graph: it fails with
  a \<open>CycleError\<close> that names a cycle of the plan.
\<close>

theorem build_rejects_cycles:
  assumes "(v, v) \<in> (set E)\<^sup>+"
  shows "\<exists>c. build name nodes (Dag E) = Inl (CycleError c) \<and> is_cycle E c"
proof -
  from find_cycle_complete [OF assms] obtain c where c: "find_cycle E = Some c"
    by blast
  then have "build name nodes (Dag E) = Inl (CycleError c)"
    by (simp add: build_def)
  with find_cycle_sound [OF c] show ?thesis
    by blast
qed

theorem build_rejects_cycles_witness:
  "(''load'', ''load'') \<in> (set [(''load'', ''reply''), (''reply'', ''load'')])\<^sup>+
   \<and> (\<exists>c. build ''loop'' [(''load'', Inr), (''reply'', Inr)]
              (Dag [(''load'', ''reply''), (''reply'', ''load'')]) = Inl (CycleError c)
          \<and> is_cycle [(''load'', ''reply''), (''reply'', ''load'')] c)"
proof -
  have cyclic: "(''load'', ''load'') \<in> (set [(''load'', ''reply''), (''reply'', ''load'')])\<^sup>+"
    by (rule trancl_trans [of _ "''reply''"]; rule r_into_trancl; simp)
  from cyclic build_rejects_cycles [OF cyclic, of "''loop''" "[(''load'', Inr), (''reply'', Inr)]"]
  show ?thesis
    by blast
qed

text \<open>
  The model at work: the cycle that is reported for that plan, an acyclic DAG plan for which
  the graph is built, and a reference to a node that was not declared.
\<close>

lemma build_reports_cycle:
  "build ''loop'' [(''load'', Inr), (''reply'', Inr)]
     (Dag [(''load'', ''reply''), (''reply'', ''load'')])
   = Inl (CycleError [''load'', ''reply'', ''load''])"
  by (simp add: build_def find_cycle_def grow_def eval_nat_numeral)

lemma build_accepts_dag:
  "build ''chain'' [(''load'', Inr), (''reply'', Inr)] (Dag [(''load'', ''reply'')])
   = Inr \<lparr>graph_name = ''chain'', graph_nodes = [(''load'', Inr), (''reply'', Inr)],
           graph_plan = Dag [(''load'', ''reply'')]\<rparr>"
  by (simp add: build_def find_cycle_def grow_def eval_nat_numeral)

lemma build_rejects_unresolved:
  "build ''chain'' [(''load'', Inr)] (Linear [''load'', ''reply''])
   = Inl (UnresolvedReference ''reply'')"
  by (simp add: build_def)

end
